theory Spec2Isabelle
  imports Main
begin

section \<open>Health endpoints (app/api/routes/health.py)\<close>

subsection \<open>Exceptions, outcomes and observable effects\<close>

text \<open>
  The handlers of \<^verbatim>\<open>readiness_check\<close> dispatch on the class of the exception:
  \<^verbatim>\<open>except HTTPException: raise\<close> comes first, \<^verbatim>\<open>except Exception as e\<close> second, and
  an exception outside the \<^verbatim>\<open>Exception\<close> hierarchy (\<^verbatim>\<open>KeyboardInterrupt\<close>,
  \<^verbatim>\<open>SystemExit\<close>) is caught by neither. So an exception is one of three kinds:
  \<^item> \<open>HTTPException status_code detail\<close>, FastAPI's exception;
  \<^item> \<open>Exception msg\<close>, any other instance of \<^verbatim>\<open>Exception\<close>, with \<open>msg\<close> its \<^verbatim>\<open>str(e)\<close>;
  \<^item> \<open>BaseException msg\<close>, an exception that does not derive from \<^verbatim>\<open>Exception\<close>.
\<close>

datatype py_exn =
    HTTPException int string
  | Exception string
  | BaseException string

text \<open>A call either returns a value or raises.\<close>

datatype 'a outcome = Returns 'a | Raises py_exn

text \<open>
  The methods of \<^verbatim>\<open>logging.Logger\<close> the endpoints call, and what an endpoint does that
  can be observed from outside: a call of the module's logger, the construction of
  \<^verbatim>\<open>VectorStoreService\<close>, and the calls of its two methods, in the order they happen.
\<close>

datatype severity = DEBUG | INFO | WARNING | ERROR | CRITICAL

datatype event =
    Log severity string
  | Construct
  | HealthCheck
  | GetCollectionInfo

subsection \<open>The collaborators\<close>

text \<open>
  \<^verbatim>\<open>app.core.vector_store.VectorStoreService\<close> is not among the sources. A request
  constructs one and calls each method at most once, so a service is given by what each
  of the three calls does: the constructor returns or raises, \<^verbatim>\<open>health_check()\<close> returns
  a boolean or raises, \<^verbatim>\<open>get_collection_info()\<close> returns the collection info or raises.
  The collection info is opaque: a type variable.
\<close>

record 'i VectorStoreService =
  vs_init :: "unit outcome"
  vs_health_check :: "bool outcome"
  vs_get_collection_info :: "'i outcome"

text \<open>
  Modelled from the spec: the response schemas \<^verbatim>\<open>app.api.schemas.ReadinessResponse\<close> and
  \<^verbatim>\<open>HealthResponse\<close> are not among the sources. The spec gives the readiness response a
  status label, the flag \<^verbatim>\<open>qdrant_connected\<close> and the collection info, an opaque payload
  forwarded unchanged; and the health response a status, a timestamp and a version. The
  constructors store the fields they are given. The field \<^verbatim>\<open>status\<close> of the health response
  is \<open>health_status\<close> here, the name \<open>status\<close> being the readiness response's.
\<close>

record 'i ReadinessResponse =
  status :: string
  qdrant_connected :: bool
  collection_info :: 'i





subsection \<open>\<^verbatim>\<open>health_check\<close>\<close>


subsection \<open>\<^verbatim>\<open>readiness_check\<close>\<close>

text \<open>
  The body of the \<^verbatim>\<open>try\<close> statement (lines 41 to 56): its outcome and its events. Each
  call that raises ends the body with that exception.
\<close>

definition try_body :: "'i VectorStoreService \<Rightarrow> 'i ReadinessResponse outcome \<times> event list" where
  "try_body vector_store =
     (case vs_init vector_store of
        Raises e \<Rightarrow> (Raises e, [Construct])
      | Returns _ \<Rightarrow>
          (case vs_health_check vector_store of
             Raises e \<Rightarrow> (Raises e, [Construct, HealthCheck])
           | Returns is_healthy \<Rightarrow>
               if \<not> is_healthy
               then (Raises (HTTPException 503 ''Vector store is not healthy''),
                     [Construct, HealthCheck])
               else
                 (case vs_get_collection_info vector_store of
                    Raises e \<Rightarrow> (Raises e, [Construct, HealthCheck, GetCollectionInfo])
                  | Returns info \<Rightarrow>
                      (Returns \<lparr>status = ''ready'', qdrant_connected = True,
                                collection_info = info\<rparr>,
                       [Construct, HealthCheck, GetCollectionInfo]))))"

text \<open>
  The \<^verbatim>\<open>except\<close> clauses (lines 57 to 64), applied to the exception the body raised:
  the exception that leaves the function, and the events of the handler.
\<close>

fun except_clauses :: "py_exn \<Rightarrow> py_exn \<times> event list" where
  "except_clauses (HTTPException status_code detail) = (HTTPException status_code detail, [])"
| "except_clauses (Exception e) =
     (HTTPException 503 (''Service not ready: '' @ e),
      [Log ERROR (''Readiness check failed: '' @ e)])"
| "except_clauses (BaseException e) = (BaseException e, [])"

definition readiness_check :: "'i VectorStoreService \<Rightarrow> 'i ReadinessResponse outcome \<times> event list" where
  "readiness_check vector_store =
     (case try_body vector_store of
        (Returns response, evs) \<Rightarrow>
          (Returns response, Log DEBUG ''Readiness check requested'' # evs)
      | (Raises e, evs) \<Rightarrow>
          (case except_clauses e of
             (e', evs') \<Rightarrow> (Raises e', Log DEBUG ''Readiness check requested'' # evs @ evs')))"

text \<open>The log lines of a given severity among the events.\<close>

fun is_log :: "severity \<Rightarrow> event \<Rightarrow> bool" where
  "is_log s (Log s' m) = (s = s')"
| "is_log s Construct = False"
| "is_log s HealthCheck = False"
| "is_log s GetCollectionInfo = False"

definition log_lines :: "severity \<Rightarrow> event list \<Rightarrow> event list" where
  "log_lines s evs = filter (is_log s) evs"

text \<open>
  What a client reads in the field \<^verbatim>\<open>qdrant_connected\<close> of the answer: the field of the
  response model when the function returned one; nothing when it raised, since an
  \<^verbatim>\<open>HTTPException\<close> carries a status code and a detail only.
\<close>

fun answer_qdrant_connected :: "'i ReadinessResponse outcome \<Rightarrow> bool option" where
  "answer_qdrant_connected (Returns r) = Some (qdrant_connected r)"
| "answer_qdrant_connected (Raises e) = None"


text \<open>
  The two ends the readiness operation is meant to have: it returns the ready response,
  or it raises an \<^verbatim>\<open>HTTPException\<close> with status 503.
\<close>

fun ready_or_503 :: "'i ReadinessResponse outcome \<Rightarrow> bool" where
  "ready_or_503 (Returns r) = (status r = ''ready'' \<and> qdrant_connected r)"
| "ready_or_503 (Raises (HTTPException status_code detail)) = (status_code = 503)"
| "ready_or_503 (Raises (Exception e)) = False"
| "ready_or_503 (Raises (BaseException e)) = False"

text \<open>
  A call of the service is ordinary when what it raises, if anything, derives from
  \<^verbatim>\<open>Exception\<close> and is not an \<^verbatim>\<open>HTTPException\<close> with a status other than 503.
\<close>

fun ordinary :: "'a outcome \<Rightarrow> bool" where
  "ordinary (Returns v) = True"
| "ordinary (Raises (HTTPException status_code detail)) = (status_code = 503)"
| "ordinary (Raises (Exception e)) = True"
| "ordinary (Raises (BaseException e)) = False"

section \<open>Logging configuration (app/utils/logger.py)\<close>

subsection \<open>What the code uses of Python's \<^verbatim>\<open>logging\<close>\<close>

text \<open>
  The numeric values of the levels: \<^verbatim>\<open>logging.INFO\<close> is \<open>level_number INFO\<close>, and so on;
  \<^verbatim>\<open>logging.NOTSET\<close> is 0.
\<close>

fun level_number :: "severity \<Rightarrow> int" where
  "level_number DEBUG = 10"
| "level_number INFO = 20"
| "level_number WARNING = 30"
| "level_number ERROR = 40"
| "level_number CRITICAL = 50"

definition NOTSET :: int where
  "NOTSET = 0"

text \<open>
  \<^verbatim>\<open>str.upper()\<close> on ASCII text: the lower-case letters are replaced by their capitals,
  every other character stays.
\<close>

definition upper_char :: "char \<Rightarrow> char" where
  "upper_char c =
     (case map_of (zip ''abcdefghijklmnopqrstuvwxyz'' ''ABCDEFGHIJKLMNOPQRSTUVWXYZ'') c of
        Some u \<Rightarrow> u
      | None \<Rightarrow> c)"

definition upper :: "string \<Rightarrow> string" where
  "upper s = map upper_char s"

text \<open>
  \<^verbatim>\<open>getattr(logging, name, default)\<close> returns the attribute of the module of that name,
  whatever it holds, and the default only when the module has no such attribute. The
  attributes of the module are a parameter of \<^verbatim>\<open>setup_logging\<close>: a map from names to
  values, a value being an integer, a string or some other object.
\<close>

datatype py_value = PyInt int | PyStr string | PyObject

definition getattr :: "(string \<rightharpoonup> py_value) \<Rightarrow> string \<Rightarrow> py_value \<Rightarrow> py_value" where
  "getattr module name dflt = (case module name of Some v \<Rightarrow> v | None \<Rightarrow> dflt)"

text \<open>
  \<^verbatim>\<open>Logger.setLevel\<close> checks its argument first: an integer is the level; a string has
  to be the name of a level, or \<^verbatim>\<open>ValueError\<close> is raised; anything else raises
  \<^verbatim>\<open>TypeError\<close>.
\<close>

datatype log_error = ValueError string | TypeError

definition nameToLevel :: "string \<rightharpoonup> int" where
  "nameToLevel =
     map_of [(''CRITICAL'', 50), (''FATAL'', 50), (''ERROR'', 40), (''WARN'', 30),
             (''WARNING'', 30), (''INFO'', 20), (''DEBUG'', 10), (''NOTSET'', 0)]"

fun checkLevel :: "py_value \<Rightarrow> log_error + int" where
  "checkLevel (PyInt n) = Inr n"
| "checkLevel (PyStr s) =
     (case nameToLevel s of Some n \<Rightarrow> Inr n | None \<Rightarrow> Inl (ValueError s))"
| "checkLevel PyObject = Inl TypeError"

text \<open>
  The state of the module. Handlers and loggers are objects, compared by identity: each
  is a number, and \<open>next_id\<close> is the first number no object has yet. The root logger has a
  level and a list of handlers; \<open>loggerDict\<close> is the registry of the named loggers, which
  \<^verbatim>\<open>logging.getLogger(name)\<close> consults and extends.
\<close>

datatype logger_ref = RootLogger | Logger nat

record logging_state =
  root_level :: int
  root_handlers :: "nat list"
  handler_formatter :: "nat \<rightharpoonup> string \<times> string"
  loggerDict :: "string \<rightharpoonup> nat"
  logger_level :: "nat \<rightharpoonup> int"
  next_id :: nat

definition getLogger :: "string \<Rightarrow> logging_state \<Rightarrow> logger_ref \<times> logging_state" where
  "getLogger name st =
     (if name = [] \<or> name = ''root'' then (RootLogger, st)
      else
        (case loggerDict st name of
           Some i \<Rightarrow> (Logger i, st)
         | None \<Rightarrow>
             (Logger (next_id st),
              st\<lparr>loggerDict := (loggerDict st)(name \<mapsto> next_id st),
                 logger_level := (logger_level st)(next_id st \<mapsto> NOTSET),
                 next_id := next_id st + 1\<rparr>)))"

fun setLevel :: "logger_ref \<Rightarrow> int \<Rightarrow> logging_state \<Rightarrow> logging_state" where
  "setLevel RootLogger lvl st = st\<lparr>root_level := lvl\<rparr>"
| "setLevel (Logger i) lvl st = st\<lparr>logger_level := (logger_level st)(i \<mapsto> lvl)\<rparr>"

text \<open>
  \<^verbatim>\<open>Logger.removeHandler\<close> and \<^verbatim>\<open>Logger.addHandler\<close> on the list of handlers:
  \<^verbatim>\<open>if hdlr in self.handlers: self.handlers.remove(hdlr)\<close> and
  \<^verbatim>\<open>if not (hdlr in self.handlers): self.handlers.append(hdlr)\<close>.
\<close>

definition removeHandler :: "nat \<Rightarrow> nat list \<Rightarrow> nat list" where
  "removeHandler hdlr handlers = (if hdlr \<in> set handlers then remove1 hdlr handlers else handlers)"

definition addHandler :: "nat \<Rightarrow> nat list \<Rightarrow> nat list" where
  "addHandler hdlr handlers = (if hdlr \<notin> set handlers then handlers @ [hdlr] else handlers)"

text \<open>\<^verbatim>\<open>logging.StreamHandler()\<close> makes a new object; \<^verbatim>\<open>setFormatter\<close> stores the formatter in it.\<close>

definition StreamHandler :: "logging_state \<Rightarrow> nat \<times> logging_state" where
  "StreamHandler st = (next_id st, st\<lparr>next_id := next_id st + 1\<rparr>)"

definition setFormatter :: "nat \<Rightarrow> string \<times> string \<Rightarrow> logging_state \<Rightarrow> logging_state" where
  "setFormatter hdlr fmt st = st\<lparr>handler_formatter := (handler_formatter st)(hdlr \<mapsto> fmt)\<rparr>"

subsection \<open>\<^verbatim>\<open>setup_logging\<close>\<close>

text \<open>
  Lines 21 and 22, \<^verbatim>\<open>for handler in root_logger.handlers: root_logger.removeHandler(handler)\<close>.
  The loop iterates over the very list that \<^verbatim>\<open>removeHandler\<close> shortens. Python's list
  iterator keeps an index: each round it stops when the index has reached the current
  length of the list, and otherwise yields the element at the index and advances by one.
\<close>

function remove_loop :: "nat \<Rightarrow> nat list \<Rightarrow> nat list" where
  "remove_loop i handlers =
     (if i < length handlers
      then remove_loop (i + 1) (removeHandler (handlers ! i) handlers)
      else handlers)"
  by pat_completeness auto
termination
  by (relation "measure (\<lambda>(i, handlers). length handlers - i)")
     (auto simp: removeHandler_def length_remove1)

declare remove_loop.simps [simp del]

text \<open>Lines 30 to 34: \<^verbatim>\<open>logging.getLogger(name).setLevel(logging.WARNING)\<close>.\<close>

definition quieten :: "logging_state \<Rightarrow> string \<Rightarrow> logging_state" where
  "quieten st name =
     (case getLogger name st of (lg, st') \<Rightarrow> setLevel lg (level_number WARNING) st')"

definition formatter :: "string \<times> string" where
  "formatter =
     (''%(asctime)s - %(name)s - %(levelname)s - %(message)s'', ''%Y-%m-%d %H:%M:%S'')"

definition setup_logging ::
    "(string \<rightharpoonup> py_value) \<Rightarrow> string \<Rightarrow> logging_state \<Rightarrow> log_error + logging_state" where
  "setup_logging logging log_level st =
     (case checkLevel (getattr logging (upper log_level) (PyInt (level_number INFO))) of
        Inl err \<Rightarrow> Inl err
      | Inr lvl \<Rightarrow>
          (let st1 = setLevel RootLogger lvl st;
               st2 = st1\<lparr>root_handlers := remove_loop 0 (root_handlers st1)\<rparr>;
               (stream_handler, st3) = StreamHandler st2;
               st4 = setFormatter stream_handler formatter st3;
               st5 = st4\<lparr>root_handlers := addHandler stream_handler (root_handlers st4)\<rparr>
           in Inr (foldl quieten st5
                     [''httpx'', ''httpcore'', ''openai'', ''qdrant_client'', ''urllib3''])))"

definition setup_log ::
    "(string \<rightharpoonup> py_value) \<Rightarrow> string \<Rightarrow> logging_state \<Rightarrow> log_error + logging_state" where
  "setup_log logging log_level st = setup_logging logging log_level st"

text \<open>
  The upper-case attributes of the \<^verbatim>\<open>logging\<close> module of CPython, the only ones an
  upper-cased name can reach, for evaluating \<^verbatim>\<open>setup_logging\<close> on concrete inputs; and
  the state of the module in a new process: the root logger at WARNING with no handler,
  no named logger.
\<close>

definition logging_module :: "string \<rightharpoonup> py_value" where
  "logging_module =
     map_of [(''CRITICAL'', PyInt 50), (''FATAL'', PyInt 50), (''ERROR'', PyInt 40),
             (''WARNING'', PyInt 30), (''WARN'', PyInt 30), (''INFO'', PyInt 20),
             (''DEBUG'', PyInt 10), (''NOTSET'', PyInt 0),
             (''BASIC_FORMAT'', PyStr ''%(levelname)s:%(name)s:%(message)s'')]"

definition new_process :: logging_state where
  "new_process =
     \<lparr>root_level = level_number WARNING, root_handlers = [], handler_formatter = Map.empty,
      loggerDict = Map.empty, logger_level = Map.empty, next_id = 0\<rparr>"

text \<open>What a caller of \<^verbatim>\<open>setup_logging\<close> observes of the root logger afterwards.\<close>

definition root_level_after :: "log_error + logging_state \<Rightarrow> log_error + int" where
  "root_level_after r = map_sum id root_level r"

definition root_handlers_after :: "log_error + logging_state \<Rightarrow> log_error + nat list" where
  "root_handlers_after r = map_sum id root_handlers r"

definition handler_count_after :: "log_error + logging_state \<Rightarrow> log_error + nat" where
  "handler_count_after r = map_sum id (\<lambda>st. length (root_handlers st)) r"

subsection \<open>\<^verbatim>\<open>get_logger\<close>\<close>

text \<open>
  \<^verbatim>\<open>@lru_cache\<close> with no argument keeps the results of the 128 most recently used
  arguments. The cache is a list of (name, logger) with the most recently used first: a
  hit moves its entry to the front; a miss calls the function, puts the result in front
  and drops the least recently used entry when the cache is full.
\<close>

definition maxsize :: nat where
  "maxsize = 128"

type_synonym lru = "(string \<times> logger_ref) list"

definition get_logger :: "string \<Rightarrow> lru \<times> logging_state \<Rightarrow> logger_ref \<times> lru \<times> logging_state" where
  "get_logger name s =
     (case s of (cache, st) \<Rightarrow>
        (case map_of cache name of
           Some lg \<Rightarrow> (lg, (name, lg) # filter (\<lambda>e. fst e \<noteq> name) cache, st)
         | None \<Rightarrow>
             (case getLogger name st of
                (lg, st') \<Rightarrow> (lg, take maxsize ((name, lg) # cache), st'))))"

text \<open>A sequence of calls of \<^verbatim>\<open>get_logger\<close>, one per name, the results dropped.\<close>

fun get_loggers :: "string list \<Rightarrow> lru \<times> logging_state \<Rightarrow> lru \<times> logging_state" where
  "get_loggers [] s = s"
| "get_loggers (name # names) s = get_loggers names (snd (get_logger name s))"

text \<open>
  The cache holds results of earlier calls: each entry is what \<^verbatim>\<open>logging.getLogger\<close> answers
  for its name now, from the registry (or the root logger).
\<close>

definition registered :: "logging_state \<Rightarrow> string \<Rightarrow> logger_ref option" where
  "registered st name =
     (if name = [] \<or> name = ''root'' then Some RootLogger
      else map_option Logger (loggerDict st name))"

definition cache_of_results :: "lru \<times> logging_state \<Rightarrow> bool" where
  "cache_of_results s =
     (case s of (cache, st) \<Rightarrow> list_all (\<lambda>e. registered st (fst e) = Some (snd e)) cache)"

section \<open>Readiness: the ready path\<close>

text \<open>
  C1. When the service is constructed, \<^verbatim>\<open>health_check()\<close> returns true and
  \<^verbatim>\<open>get_collection_info()\<close> returns a value, \<^verbatim>\<open>readiness_check\<close> returns normally (the
  200 answer) the response with status \<^verbatim>\<open>"ready"\<close>, \<^verbatim>\<open>qdrant_connected\<close> true and
  exactly that value as collection info.
\<close>

theorem readiness_ready:
  assumes "vs_init vs = Returns ()"
    and "vs_health_check vs = Returns True"
    and "vs_get_collection_info vs = Returns info"
  shows "fst (readiness_check vs) =
           Returns \<lparr>status = ''ready'', qdrant_connected = True, collection_info = info\<rparr>"
  using assms by (simp add: readiness_check_def try_body_def)

theorem readiness_ready_witness:
  "fst (readiness_check
          \<lparr>vs_init = Returns (), vs_health_check = Returns True,
           vs_get_collection_info = Returns (''docs'', 100::nat)\<rparr>) =
     Returns \<lparr>status = ''ready'', qdrant_connected = True,
              collection_info = (''docs'', 100::nat)\<rparr>"
  using readiness_ready
    [of "\<lparr>vs_init = Returns (), vs_health_check = Returns True,
          vs_get_collection_info = Returns (''docs'', 100::nat)\<rparr>" "(''docs'', 100::nat)"]
  by simp

section \<open>Readiness: the unhealthy path\<close>

text \<open>
  C2 (as amended). When the service is constructed and \<^verbatim>\<open>health_check()\<close> returns false,
  \<^verbatim>\<open>readiness_check\<close> raises \<^verbatim>\<open>HTTPException\<close> with status 503 and the detail
  \<^verbatim>\<open>"Vector store is not healthy"\<close>, whatever \<^verbatim>\<open>get_collection_info()\<close> would have done:
  it is never called. No response model is built, so the answer has no
  \<^verbatim>\<open>qdrant_connected\<close> field, neither true nor false, and no collection info.
\<close>

theorem readiness_unhealthy:
  assumes "vs_init vs = Returns ()"
    and "vs_health_check vs = Returns False"
  shows "readiness_check vs =
           (Raises (HTTPException 503 ''Vector store is not healthy''),
            [Log DEBUG ''Readiness check requested'', Construct, HealthCheck])
         \<and> answer_qdrant_connected (fst (readiness_check vs)) = None
         \<and> GetCollectionInfo \<notin> set (snd (readiness_check vs))"
  using assms by (simp add: readiness_check_def try_body_def)

text \<open>The unhealthy path at a concrete service.\<close>

theorem readiness_unhealthy_witness:
  "readiness_check
     \<lparr>vs_init = Returns (), vs_health_check = Returns False,
      vs_get_collection_info = Returns (''docs'', 100::nat)\<rparr> =
   (Raises (HTTPException 503 ''Vector store is not healthy''),
    [Log DEBUG ''Readiness check requested'', Construct, HealthCheck])"
  using readiness_unhealthy
    [of "\<lparr>vs_init = Returns (), vs_health_check = Returns False,
          vs_get_collection_info = Returns (''docs'', 100::nat)\<rparr>"]
  by simp

text \<open>
  C2 as stated asks for an answer whose body sets the connected flag to false. On the
  unhealthy path the answer is the raised \<^verbatim>\<open>HTTPException\<close>: there is no such field in it.
\<close>

theorem unhealthy_answer_has_no_flag:
  "\<not> answer_qdrant_connected
       (fst (readiness_check
          \<lparr>vs_init = Returns (), vs_health_check = Returns False,
           vs_get_collection_info = Returns (''docs'', 100::nat)\<rparr>)) = Some False"
  by (simp add: readiness_check_def try_body_def)

text \<open>A line at ERROR appears exactly when the body raised an exception of the second kind.\<close>

lemma error_logged_iff:
  "log_lines ERROR (snd (readiness_check vs)) \<noteq> [] \<longleftrightarrow>
     (\<exists>cause. fst (try_body vs) = Raises (Exception cause))"
proof (cases "fst (try_body vs)")
  case (Returns r)
  then show ?thesis
    by (cases "try_body vs") (simp add: readiness_check_def log_lines_def try_body_def
        split: outcome.splits if_splits)
next
  case (Raises e)
  moreover have "log_lines ERROR (snd (try_body vs)) = []"
    by (simp add: try_body_def log_lines_def split: outcome.splits)
  ultimately show ?thesis
    by (cases "try_body vs"; cases e) (simp_all add: readiness_check_def log_lines_def)
qed

text \<open>
  C10. When \<^verbatim>\<open>health_check()\<close> returns false, \<^verbatim>\<open>readiness_check\<close> logs nothing at ERROR.
  A line at ERROR is logged only when the body raised an exception that is caught by
  \<^verbatim>\<open>except Exception\<close>.
\<close>

theorem unhealthy_logs_no_error:
  assumes "vs_init vs = Returns ()"
    and "vs_health_check vs = Returns False"
  shows "log_lines ERROR (snd (readiness_check vs)) = []
         \<and> (\<forall>vs' :: 'i VectorStoreService.
               log_lines ERROR (snd (readiness_check vs')) \<noteq> [] \<longrightarrow>
                 (\<exists>cause. fst (try_body vs') = Raises (Exception cause)))"
proof
  show "log_lines ERROR (snd (readiness_check vs)) = []"
    using assms by (simp add: readiness_check_def try_body_def log_lines_def)
  show "\<forall>vs' :: 'i VectorStoreService.
          log_lines ERROR (snd (readiness_check vs')) \<noteq> [] \<longrightarrow>
            (\<exists>cause. fst (try_body vs') = Raises (Exception cause))"
    using error_logged_iff by blast
qed

text \<open>No line at ERROR at a concrete unhealthy service.\<close>

theorem unhealthy_logs_no_error_witness:
  "log_lines ERROR (snd (readiness_check
      \<lparr>vs_init = Returns (), vs_health_check = Returns False,
       vs_get_collection_info = Returns (0::nat)\<rparr>)) = []"
proof -
  let ?vs = "\<lparr>vs_init = Returns (), vs_health_check = Returns False,
             vs_get_collection_info = Returns (0::nat)\<rparr>"
  have "vs_init ?vs = Returns ()" and "vs_health_check ?vs = Returns False"
    by simp_all
  then show ?thesis
    by (rule unhealthy_logs_no_error [THEN conjunct1])
qed

section \<open>Readiness: the already classified failure\<close>

text \<open>
  C4. The \<^verbatim>\<open>HTTPException\<close> with status 503 that the body raises when \<^verbatim>\<open>health_check()\<close>
  returned false goes through the \<^verbatim>\<open>except\<close> clauses unchanged: the exception that leaves
  \<^verbatim>\<open>readiness_check\<close> is the one the body raised, with the same status code and the same
  detail, neither wrapped as \<^verbatim>\<open>"Service not ready: ..."\<close> nor swallowed.
\<close>

theorem unhealthy_passes_through:
  assumes "vs_init vs = Returns ()"
    and "vs_health_check vs = Returns False"
  shows "fst (try_body vs) = Raises (HTTPException 503 ''Vector store is not healthy'')
         \<and> except_clauses (HTTPException 503 ''Vector store is not healthy'') =
             (HTTPException 503 ''Vector store is not healthy'', [])
         \<and> fst (readiness_check vs) = fst (try_body vs)"
  using assms by (simp add: readiness_check_def try_body_def)

text \<open>The pass-through at a concrete service.\<close>

theorem unhealthy_passes_through_witness:
  "fst (readiness_check
          \<lparr>vs_init = Returns (), vs_health_check = Returns False,
           vs_get_collection_info = Returns (0::nat)\<rparr>) =
   fst (try_body
          \<lparr>vs_init = Returns (), vs_health_check = Returns False,
           vs_get_collection_info = Returns (0::nat)\<rparr>)"
  using unhealthy_passes_through
    [of "\<lparr>vs_init = Returns (), vs_health_check = Returns False,
          vs_get_collection_info = Returns (0::nat)\<rparr>"]
  by simp

section \<open>Readiness: unexpected failures\<close>




section \<open>Readiness: what can leave the operation\<close>

text \<open>An exception the body raises was raised by a call of the service, or is the 503 of line 45.\<close>

lemma try_body_cases:
  "fst (try_body vs) = Raises e \<Longrightarrow>
     vs_init vs = Raises e \<or> vs_health_check vs = Raises e \<or> vs_get_collection_info vs = Raises e
     \<or> e = HTTPException 503 ''Vector store is not healthy''"
  by (auto simp add: try_body_def split: outcome.splits if_splits)

text \<open>
  C9 (as amended). When whatever the service raises, from its constructor or from either
  method, derives from \<^verbatim>\<open>Exception\<close> and is not an \<^verbatim>\<open>HTTPException\<close> with a status other
  than 503, \<^verbatim>\<open>readiness_check\<close> either returns the ready response or raises an
  \<^verbatim>\<open>HTTPException\<close> with status 503. This includes an exception raised by the constructor,
  before \<^verbatim>\<open>health_check()\<close> is called.
\<close>

theorem readiness_never_unclassified:
  assumes "ordinary (vs_init vs)"
    and "ordinary (vs_health_check vs)"
    and "ordinary (vs_get_collection_info vs)"
  shows "ready_or_503 (fst (readiness_check vs))"
proof (cases "fst (try_body vs)")
  case (Returns r)
  then show ?thesis
    by (auto simp add: readiness_check_def try_body_def split: outcome.splits if_splits prod.splits)
next
  case (Raises e)
  from try_body_cases [OF Raises] assms have "ordinary (Raises e :: unit outcome)"
    by (cases e) auto
  with Raises show ?thesis
    by (cases e) (auto simp add: readiness_check_def split: prod.splits outcome.splits)
qed

text \<open>The constructor of the service raises.\<close>

theorem readiness_never_unclassified_witness:
  "ready_or_503 (fst (readiness_check
      \<lparr>vs_init = Raises (Exception ''connection refused''), vs_health_check = Returns True,
       vs_get_collection_info = Returns (0::nat)\<rparr>))"
  using readiness_never_unclassified
    [of "\<lparr>vs_init = Raises (Exception ''connection refused''), vs_health_check = Returns True,
          vs_get_collection_info = Returns (0::nat)\<rparr>"]
  by simp

text \<open>
  C9 as stated covers every behaviour of the service. An \<^verbatim>\<open>HTTPException\<close> with status
  500 raised by the constructor leaves \<^verbatim>\<open>readiness_check\<close> with status 500.
\<close>

theorem http_exception_from_constructor_escapes:
  "\<not> ready_or_503 (fst (readiness_check
      \<lparr>vs_init = Raises (HTTPException 500 ''vector store misconfigured''),
       vs_health_check = Returns True, vs_get_collection_info = Returns (0::nat)\<rparr>))"
  by (simp add: readiness_check_def try_body_def)

section \<open>Liveness\<close>



section \<open>The level set by \<^verbatim>\<open>setup_logging\<close>\<close>

lemma upper_INFO: "upper ''INFO'' = ''INFO''"
  by (simp add: upper_def upper_char_def)

lemma root_level_quieten:
  "name \<noteq> [] \<Longrightarrow> name \<noteq> ''root'' \<Longrightarrow> root_level (quieten st name) = root_level st"
  by (simp add: quieten_def getLogger_def split: option.splits)

lemma root_handlers_quieten:
  "root_handlers (quieten st name) = root_handlers st"
  by (simp add: quieten_def getLogger_def split: option.splits)

lemma root_handlers_quieten_all:
  "root_handlers (foldl quieten st names) = root_handlers st"
  by (induction names arbitrary: st) (simp_all add: root_handlers_quieten)




lemma root_level_setup_logging:
  "checkLevel (getattr logging (upper log_level) (PyInt (level_number INFO))) = Inr lvl \<Longrightarrow>
     root_level_after (setup_logging logging log_level st) = Inr lvl"
  by (simp add: setup_logging_def root_level_after_def StreamHandler_def setFormatter_def
      root_level_quieten Let_def)


text \<open>
  Other inputs outside the five names: a level name in lower case selects that level, and
  the name of an attribute that holds a string which names no level makes
  \<^verbatim>\<open>setLevel\<close> raise.
\<close>

lemma lower_case_level_is_recognised:
  "root_level_after (setup_logging logging_module ''debug'' new_process) = Inr 10"
  by (rule root_level_setup_logging)
     (simp add: getattr_def logging_module_def upper_def upper_char_def)

lemma string_attribute_raises:
  "setup_logging logging_module ''basic_format'' new_process =
     Inl (ValueError ''%(levelname)s:%(name)s:%(message)s'')"
  by (simp add: setup_logging_def getattr_def logging_module_def upper_def upper_char_def
      nameToLevel_def)

section \<open>The handlers left by \<^verbatim>\<open>setup_logging\<close>\<close>

text \<open>
  Each round of the loop removes one handler and advances the index by one, so the loop
  started at index 0 removes every other handler: half of them stay, rounded down.
\<close>

lemma length_remove_loop:
  "length (remove_loop i hs) = length hs - (length hs - i + 1) div 2"
proof (induction i hs rule: remove_loop.induct)
  case (1 i hs)
  show ?case
  proof (cases "i < length hs")
    case True
    then obtain d where n: "length hs = i + Suc d"
      by (metis less_imp_Suc_add add_Suc_right)
    from True have "hs ! i \<in> set hs" by simp
    then have l: "length (removeHandler (hs ! i) hs) = length hs - 1"
      by (simp add: removeHandler_def length_remove1)
    have "length (remove_loop i hs) = length (remove_loop (i + 1) (removeHandler (hs ! i) hs))"
      using True by (subst remove_loop.simps) simp
    also have "\<dots> = (length hs - 1) - ((length hs - 1) - (i + 1) + 1) div 2"
      using "1.IH" [OF True] l by simp
    also have "\<dots> = length hs - (length hs - i + 1) div 2"
      unfolding n by simp
    finally show ?thesis .
  next
    case False
    then show ?thesis by (subst remove_loop.simps) simp
  qed
qed

lemma set_remove_loop: "set (remove_loop i hs) \<subseteq> set hs"
proof (induction i hs rule: remove_loop.induct)
  case (1 i hs)
  show ?case
  proof (cases "i < length hs")
    case True
    have "set (removeHandler (hs ! i) hs) \<subseteq> set hs"
      using set_remove1_subset [of "hs ! i" hs] by (simp add: removeHandler_def)
    with "1.IH" [OF True] True show ?thesis
      by (subst remove_loop.simps) auto
  next
    case False
    then show ?thesis by (subst remove_loop.simps) simp
  qed
qed

text \<open>The number of handlers after a call that returns: half of the old ones, and the new one.\<close>

lemma handler_count_setup_logging:
  assumes "setup_logging logging log_level st = Inr st'"
    and "next_id st \<notin> set (root_handlers st)"
  shows "length (root_handlers st') = length (root_handlers st) div 2 + 1"
proof -
  have "next_id st \<notin> set (remove_loop 0 (root_handlers st))"
    using assms(2) set_remove_loop by blast
  then show ?thesis
    using assms(1)
    by (auto simp add: setup_logging_def StreamHandler_def setFormatter_def Let_def
        addHandler_def root_handlers_quieten length_remove_loop split: sum.splits)
qed

text \<open>
  C6. With two handlers 0 and 1 on the root logger, the loop of \<^verbatim>\<open>setup_logging\<close> removes
  handler 0 and skips handler 1; the new handler 2 is added beside it. Two handlers are
  attached after the call, and handler 1 was never detached.
\<close>

theorem two_handlers_stay_two:
  "root_handlers_after
     (setup_logging logging_module ''INFO'' (new_process\<lparr>root_handlers := [0, 1], next_id := 2\<rparr>))
     = Inr [1, 2]
   \<and> handler_count_after
     (setup_logging logging_module ''INFO'' (new_process\<lparr>root_handlers := [0, 1], next_id := 2\<rparr>))
     = Inr 2"
proof -
  have "remove_loop 0 [0, 1] = [1]"
    by (simp add: remove_loop.simps removeHandler_def)
  then show ?thesis
    by (simp add: handler_count_after_def root_handlers_after_def setup_logging_def getattr_def
        logging_module_def upper_INFO new_process_def StreamHandler_def setFormatter_def Let_def
        addHandler_def root_handlers_quieten)
qed

text \<open>
  From two handlers every further call leaves two again; from at most one handler a call
  leaves exactly one. Both for a state in which the next object is not yet a handler.
\<close>

lemma two_handlers_again:
  assumes "setup_logging logging log_level st = Inr st'"
    and "next_id st \<notin> set (root_handlers st)"
    and "length (root_handlers st) = 2"
  shows "length (root_handlers st') = 2"
  using handler_count_setup_logging [OF assms(1,2)] assms(3) by simp

lemma at_most_one_handler_gives_one:
  assumes "setup_logging logging log_level st = Inr st'"
    and "next_id st \<notin> set (root_handlers st)"
    and "length (root_handlers st) \<le> 1"
  shows "length (root_handlers st') = 1"
  using handler_count_setup_logging [OF assms(1,2)] assms(3) by simp

section \<open>The identity of the loggers of \<^verbatim>\<open>get_logger\<close>\<close>

text \<open>
  \<^verbatim>\<open>logging.getLogger\<close> registers the logger it returns, never replaces a registered one,
  and returns the registered one without changing the state.
\<close>

lemma registered_getLogger:
  "registered (snd (getLogger name st)) name = Some (fst (getLogger name st))"
  by (simp add: registered_def getLogger_def split: option.splits)

lemma registered_stable:
  "registered st name = Some lg \<Longrightarrow> registered (snd (getLogger other st)) name = Some lg"
  by (auto simp add: registered_def getLogger_def split: option.splits if_splits)

lemma getLogger_registered:
  "registered st name = Some lg \<Longrightarrow> getLogger name st = (lg, st)"
  by (auto simp add: registered_def getLogger_def split: option.splits if_splits)

lemma get_logger_state:
  "snd (snd (get_logger name (cache, st))) = st \<or>
   snd (snd (get_logger name (cache, st))) = snd (getLogger name st)"
  by (simp add: get_logger_def split: option.splits prod.splits)

lemma registered_get_logger:
  assumes "registered (snd s) name = Some lg"
  shows "registered (snd (snd (get_logger other s))) name = Some lg"
proof (cases s)
  case (Pair cache st)
  with assms get_logger_state [of other cache st] show ?thesis
    by (auto simp add: registered_stable)
qed

text \<open>
  \<^verbatim>\<open>get_logger\<close> returns the logger registered for the name, on a hit as on a miss, and keeps
  the cache a cache of results. The cache never grows beyond its capacity: the entries
  beyond it are evicted.
\<close>

lemma cache_hit_is_registered:
  assumes "cache_of_results (cache, st)" and "map_of cache name = Some lg"
  shows "registered st name = Some lg"
proof -
  from assms(2) have "(name, lg) \<in> set cache" by (rule map_of_SomeD)
  with assms(1) show ?thesis
    by (auto simp add: cache_of_results_def list_all_iff)
qed

lemma get_logger_result:
  assumes "cache_of_results s"
  shows "registered (snd (snd (get_logger name s))) name = Some (fst (get_logger name s))"
proof (cases s)
  case (Pair cache st)
  show ?thesis
  proof (cases "map_of cache name")
    case None
    with Pair registered_getLogger [of name st] show ?thesis
      by (auto simp add: get_logger_def split: prod.splits)
  next
    case (Some lg)
    with Pair assms cache_hit_is_registered [of cache st name lg] show ?thesis
      by (simp add: get_logger_def)
  qed
qed

lemma get_logger_of_registered:
  assumes "cache_of_results s" and "registered (snd s) name = Some lg"
  shows "fst (get_logger name s) = lg"
proof (cases s)
  case (Pair cache st)
  show ?thesis
  proof (cases "map_of cache name")
    case None
    with Pair assms(2) show ?thesis
      by (simp add: get_logger_def getLogger_registered)
  next
    case (Some lg')
    with Pair assms cache_hit_is_registered [of cache st name lg'] show ?thesis
      by (simp add: get_logger_def)
  qed
qed

lemma cache_of_results_get_logger:
  assumes "cache_of_results s"
  shows "cache_of_results (snd (get_logger name s))"
proof (cases s)
  case (Pair cache st)
  with assms have c: "\<forall>e \<in> set cache. registered st (fst e) = Some (snd e)"
    by (simp add: cache_of_results_def list_all_iff)
  show ?thesis
  proof (cases "map_of cache name")
    case None
    have "\<forall>e \<in> set (take maxsize ((name, fst (getLogger name st)) # cache)).
            registered (snd (getLogger name st)) (fst e) = Some (snd e)"
    proof
      fix e assume "e \<in> set (take maxsize ((name, fst (getLogger name st)) # cache))"
      then have "e = (name, fst (getLogger name st)) \<or> e \<in> set cache"
        by (auto dest: in_set_takeD)
      then show "registered (snd (getLogger name st)) (fst e) = Some (snd e)"
        using c registered_getLogger [of name st] by (auto simp add: registered_stable)
    qed
    with Pair None show ?thesis
      by (cases "getLogger name st")
         (simp add: get_logger_def cache_of_results_def list_all_iff)
  next
    case (Some lg)
    with Pair assms cache_hit_is_registered [of cache st name lg] c show ?thesis
      by (auto simp add: get_logger_def cache_of_results_def list_all_iff)
  qed
qed

lemma cache_stays_bounded:
  assumes "length cache \<le> maxsize"
  shows "length (fst (snd (get_logger name (cache, st)))) \<le> maxsize"
proof (cases "map_of cache name")
  case None
  then show ?thesis
    by (simp add: get_logger_def split: prod.splits)
next
  case (Some lg)
  then have "(name, lg) \<in> set cache" by (rule map_of_SomeD)
  then have "length (filter (\<lambda>e. fst e \<noteq> name) cache) < length cache"
    by (rule length_filter_less) simp
  with Some assms show ?thesis
    by (simp add: get_logger_def)
qed

lemma get_loggers_keeps:
  assumes "cache_of_results s" and "registered (snd s) name = Some lg"
  shows "cache_of_results (get_loggers names s) \<and>
         registered (snd (get_loggers names s)) name = Some lg"
  using assms
proof (induction names arbitrary: s)
  case Nil
  then show ?case by simp
next
  case (Cons other names)
  have "cache_of_results (snd (get_logger other s))"
    using Cons.prems(1) by (rule cache_of_results_get_logger)
  moreover have "registered (snd (snd (get_logger other s))) name = Some lg"
    using Cons.prems(2) by (rule registered_get_logger)
  ultimately show ?case using Cons.IH by simp
qed

text \<open>
  \<^verbatim>\<open>setup_logging\<close> touches the registry only through \<^verbatim>\<open>logging.getLogger\<close>, so a call
  of it between two calls of \<^verbatim>\<open>get_logger\<close> keeps the cache a cache of results too.
\<close>

lemma registered_loggerDict:
  "loggerDict st' = loggerDict st \<Longrightarrow> registered st' name = registered st name"
  by (simp add: registered_def)

lemma registered_quieten:
  assumes a: "registered st name = Some lg"
  shows "registered (quieten st other) name = Some lg"
proof -
  obtain l st' where g: "getLogger other st = (l, st')" by (cases "getLogger other st")
  with registered_stable [OF a, of other] have "registered st' name = Some lg" by simp
  moreover have "loggerDict (setLevel l (level_number WARNING) st') = loggerDict st'"
    by (cases l) simp_all
  ultimately have "registered (setLevel l (level_number WARNING) st') name = Some lg"
    using registered_loggerDict [of "setLevel l (level_number WARNING) st'" st' name] by simp
  with g show ?thesis by (simp add: quieten_def)
qed

lemma registered_quieten_all:
  "registered st name = Some lg \<Longrightarrow> registered (foldl quieten st names) name = Some lg"
  by (induction names arbitrary: st) (simp_all add: registered_quieten)

lemma registered_setup_logging:
  assumes "setup_logging logging log_level st = Inr st'"
    and "registered st name = Some lg"
  shows "registered st' name = Some lg"
proof (cases "checkLevel (getattr logging (upper log_level) (PyInt (level_number INFO)))")
  case (Inl err)
  with assms(1) show ?thesis by (simp add: setup_logging_def)
next
  case (Inr lvl)
  define st5 where "st5 =
    (setFormatter (next_id st) formatter
       (st\<lparr>root_level := lvl, root_handlers := remove_loop 0 (root_handlers st),
           next_id := next_id st + 1\<rparr>))
     \<lparr>root_handlers := addHandler (next_id st) (remove_loop 0 (root_handlers st))\<rparr>"
  have "loggerDict st5 = loggerDict st"
    by (simp add: st5_def setFormatter_def)
  then have r: "registered st5 name = Some lg"
    using assms(2) registered_loggerDict [of st5 st name] by simp
  have "setup_logging logging log_level st =
        Inr (foldl quieten st5 [''httpx'', ''httpcore'', ''openai'', ''qdrant_client'', ''urllib3''])"
    unfolding setup_logging_def Inr st5_def
    by (simp only: sum.case Let_def StreamHandler_def setLevel.simps prod.case)
       (simp add: setFormatter_def)
  with assms(1) have "st' =
      foldl quieten st5 [''httpx'', ''httpcore'', ''openai'', ''qdrant_client'', ''urllib3'']"
    by simp
  then show ?thesis using r by (simp only: registered_quieten_all)
qed

lemma cache_of_results_setup_logging:
  assumes "setup_logging logging log_level st = Inr st'"
    and "cache_of_results (cache, st)"
  shows "cache_of_results (cache, st')"
  using assms(2) registered_setup_logging [OF assms(1)]
  by (simp add: cache_of_results_def list_all_iff)

text \<open>
  C7. In a state where the cache holds results of earlier calls, a call of
  \<^verbatim>\<open>get_logger\<close> for a name, then calls for any names in any number, then a second call for
  the first name: both calls return the same logger object. The number of names in
  between is not bounded, so the entry of the first call may have left the cache.
\<close>

theorem get_logger_same_object:
  assumes "cache_of_results s"
  shows "fst (get_logger name (get_loggers between (snd (get_logger name s)))) =
         fst (get_logger name s)"
proof -
  let ?s1 = "snd (get_logger name s)"
  have "cache_of_results ?s1"
    using assms by (rule cache_of_results_get_logger)
  moreover have "registered (snd ?s1) name = Some (fst (get_logger name s))"
    using assms by (rule get_logger_result)
  ultimately have "cache_of_results (get_loggers between ?s1) \<and>
      registered (snd (get_loggers between ?s1)) name = Some (fst (get_logger name s))"
    by (rule get_loggers_keeps)
  then show ?thesis
    using get_logger_of_registered by blast
qed

text \<open>Two calls for the name of the health module in a new process.\<close>

theorem get_logger_same_object_witness:
  "fst (get_logger ''app.api.routes.health''
         (get_loggers [''a'', ''b'']
            (snd (get_logger ''app.api.routes.health'' ([], new_process))))) =
   fst (get_logger ''app.api.routes.health'' ([], new_process))"
proof -
  have "cache_of_results ([], new_process)"
    by (simp add: cache_of_results_def)
  then show ?thesis
    by (rule get_logger_same_object)
qed

end
